theory Spec2Isabelle
  imports Complex_Main "HOL-Library.Word" "HOL-Library.Sublist"
begin

section \<open>Float32 logits\<close>

text \<open>
  An element of a \<^verbatim>\<open>Float32Array\<close>, read as a JavaScript number. The finite values of the
  format are a subset of the reals; the model lets \<open>Finite\<close> carry any real, so a theorem
  about all of them covers every float. Signed zeros are identified: the code only copies
  logits and subtracts them inside the sort comparator, where \<open>+0\<close> and \<open>-0\<close> behave alike.
\<close>

datatype f32 = NaN | NegInfinity | Finite real | Infinity

text \<open>
  \<^verbatim>\<open>x - y\<close> on numbers. For two finite float32 operands the double-precision difference
  has the sign of the exact difference (it is a multiple of \<open>2^-149\<close> below \<open>2^129\<close>,
  so it neither underflows to zero nor overflows), and only the sign is ever inspected.
\<close>

fun f32_sub :: "f32 \<Rightarrow> f32 \<Rightarrow> f32" where
  "f32_sub NaN y = NaN"
| "f32_sub x NaN = NaN"
| "f32_sub (Finite x) (Finite y) = Finite (x - y)"
| "f32_sub Infinity Infinity = NaN"
| "f32_sub NegInfinity NegInfinity = NaN"
| "f32_sub Infinity y = Infinity"
| "f32_sub NegInfinity y = NegInfinity"
| "f32_sub (Finite x) Infinity = NegInfinity"
| "f32_sub (Finite x) NegInfinity = Infinity"

text \<open>
  The comparisons \<^verbatim>\<open>x > y\<close>, \<^verbatim>\<open>x == y\<close> and \<^verbatim>\<open>x >= y\<close> of IEEE 754: false as soon
  as one side is NaN.
\<close>

fun f32_gt :: "f32 \<Rightarrow> f32 \<Rightarrow> bool" where
  "f32_gt NaN y = False"
| "f32_gt x NaN = False"
| "f32_gt (Finite x) (Finite y) = (y < x)"
| "f32_gt Infinity Infinity = False"
| "f32_gt Infinity y = True"
| "f32_gt x NegInfinity = (x \<noteq> NegInfinity)"
| "f32_gt NegInfinity y = False"
| "f32_gt (Finite x) Infinity = False"

definition f32_eq :: "f32 \<Rightarrow> f32 \<Rightarrow> bool" where
  "f32_eq x y = (x \<noteq> NaN \<and> y \<noteq> NaN \<and> x = y)"

definition f32_ge :: "f32 \<Rightarrow> f32 \<Rightarrow> bool" where
  "f32_ge x y = (x \<noteq> NaN \<and> y \<noteq> NaN \<and> (f32_gt x y \<or> x = y))"

section \<open>Array.prototype.sort with a comparator\<close>

text \<open>
  The sort itself belongs to the JavaScript engine, not to the sources. ECMAScript fixes
  what the program can rely on. \<^verbatim>\<open>SortCompare\<close> turns a comparator result that is NaN into
  \<open>+0\<close>, and the engine sees the sign of that value only: negative puts the first
  argument first, positive the second, zero leaves the two as they are. The sort is
  stable. When the comparator is consistent on the elements (equality by it is an
  equivalence, less and greater are transitive), the result is the one stable sorted
  order, which the insertion sort \<open>stable_sort\<close> computes. When it is not, the order is
  implementation-defined: the model takes it from a parameter, the engine, about which
  nothing is assumed.
\<close>

fun is_positive :: "f32 \<Rightarrow> bool" where
  "is_positive (Finite v) = (0 < v)"
| "is_positive Infinity = True"
| "is_positive v = False"

fun insert_sorted :: "('a \<Rightarrow> 'a \<Rightarrow> f32) \<Rightarrow> 'a \<Rightarrow> 'a list \<Rightarrow> 'a list" where
  "insert_sorted cmp x [] = [x]"
| "insert_sorted cmp x (y # ys) =
     (if is_positive (cmp x y) then y # insert_sorted cmp x ys else x # y # ys)"

definition stable_sort :: "('a \<Rightarrow> 'a \<Rightarrow> f32) \<Rightarrow> 'a list \<Rightarrow> 'a list" where
  "stable_sort cmp xs = foldr (insert_sorted cmp) xs []"

fun is_negative :: "f32 \<Rightarrow> bool" where
  "is_negative (Finite v) = (v < 0)"
| "is_negative NegInfinity = True"
| "is_negative v = False"

definition cf_lt :: "('a \<Rightarrow> 'a \<Rightarrow> f32) \<Rightarrow> 'a \<Rightarrow> 'a \<Rightarrow> bool" where
  "cf_lt cmp a b = is_negative (cmp a b)"

definition cf_gt :: "('a \<Rightarrow> 'a \<Rightarrow> f32) \<Rightarrow> 'a \<Rightarrow> 'a \<Rightarrow> bool" where
  "cf_gt cmp a b = is_positive (cmp a b)"

definition cf_eq :: "('a \<Rightarrow> 'a \<Rightarrow> f32) \<Rightarrow> 'a \<Rightarrow> 'a \<Rightarrow> bool" where
  "cf_eq cmp a b = (\<not> is_negative (cmp a b) \<and> \<not> is_positive (cmp a b))"

text \<open>
  ECMAScript's consistent comparator, for the value \<^verbatim>\<open>SortCompare\<close> hands to the engine, on
  the elements of the array.
\<close>

definition consistent :: "('a \<Rightarrow> 'a \<Rightarrow> f32) \<Rightarrow> 'a list \<Rightarrow> bool" where
  "consistent cmp xs =
     ((\<forall>a\<in>set xs. cf_eq cmp a a)
      \<and> (\<forall>a\<in>set xs. \<forall>b\<in>set xs. cf_eq cmp a b \<longrightarrow> cf_eq cmp b a)
      \<and> (\<forall>a\<in>set xs. \<forall>b\<in>set xs. \<forall>c\<in>set xs.
            (cf_eq cmp a b \<and> cf_eq cmp b c \<longrightarrow> cf_eq cmp a c)
          \<and> (cf_lt cmp a b \<and> cf_lt cmp b c \<longrightarrow> cf_lt cmp a c)
          \<and> (cf_gt cmp a b \<and> cf_gt cmp b c \<longrightarrow> cf_gt cmp a c)))"

type_synonym 'a engine = "('a \<Rightarrow> 'a \<Rightarrow> f32) \<Rightarrow> 'a list \<Rightarrow> 'a list"

definition array_sort :: "'a engine \<Rightarrow> ('a \<Rightarrow> 'a \<Rightarrow> f32) \<Rightarrow> 'a list \<Rightarrow> 'a list" where
  "array_sort E cmp xs = (if consistent cmp xs then stable_sort cmp xs else E cmp xs)"

text \<open>
  \<^verbatim>\<open>xs.slice(0, k)\<close> for an integral \<open>k\<close>: a negative end counts from the end of the
  array, and the end is clamped to the length.
\<close>

definition slice0 :: "'a list \<Rightarrow> int \<Rightarrow> 'a list" where
  "slice0 xs k =
     (let len = int (length xs);
          final = (if k < 0 then max (len + k) 0 else min k len)
      in take (nat final) xs)"

section \<open>The processor's private helpers\<close>

record candidate =
  tokenId :: nat
  logit :: f32

definition by_logit_desc :: "candidate \<Rightarrow> candidate \<Rightarrow> f32" where
  "by_logit_desc a b = f32_sub (logit b) (logit a)"

definition indexed :: "f32 list \<Rightarrow> candidate list" where
  "indexed logits = map (\<lambda>i. \<lparr>tokenId = i, logit = logits ! i\<rparr>) [0..<length logits]"

definition getTopK :: "candidate engine \<Rightarrow> f32 list \<Rightarrow> int \<Rightarrow> candidate list" where
  "getTopK E logits k = slice0 (array_sort E by_logit_desc (indexed logits)) k"

text \<open>
  \<open>maskAllExcept\<close> fills a new array; a write to a typed array at an index past its end
  is dropped, as \<open>list_update\<close> does.
\<close>

definition maskAllExcept :: "f32 list \<Rightarrow> nat \<Rightarrow> f32 list" where
  "maskAllExcept logits allowedToken =
     (replicate (length logits) NegInfinity)[allowedToken := logits ! allowedToken]"

text \<open>
  \<open>applyBitmask\<close> writes into the buffer it was given and returns it. A read of the
  \<^verbatim>\<open>Uint8Array\<close> past its end gives \<^verbatim>\<open>undefined\<close>, which is not \<open>=== 0\<close>.
\<close>

definition mask_is_zero :: "8 word list \<Rightarrow> nat \<Rightarrow> bool" where
  "mask_is_zero bits i = (i < length bits \<and> bits ! i = 0)"

definition applyBitmask :: "f32 list \<Rightarrow> 8 word list \<Rightarrow> f32 list" where
  "applyBitmask logits bits =
     foldl (\<lambda>l i. if mask_is_zero bits i then l[i := NegInfinity] else l)
       logits [0..<length logits]"

section \<open>The grammar oracle and its adapter\<close>

text \<open>
  Modelled from the spec: the WebAssembly class \<^verbatim>\<open>LLGuidanceParser\<close> of
  \<^verbatim>\<open>pkg/llguidance_wasm.js\<close> is not part of the sources. Its behaviour is a parameter of
  the model, over an opaque session state \<open>'s\<close>, with the signatures of the oracle
  boundary: the two queries and the completion test read the session, \<open>advance\<close> and
  \<open>reset\<close> replace it.
\<close>

record 's LLGuidanceParser =
  wasm_is_token_allowed :: "'s \<Rightarrow> nat \<Rightarrow> bool"
  wasm_get_token_mask :: "'s \<Rightarrow> 8 word list"
  wasm_advance :: "'s \<Rightarrow> nat \<Rightarrow> 's"
  wasm_is_complete :: "'s \<Rightarrow> bool"
  wasm_reset :: "'s \<Rightarrow> string \<Rightarrow> 's"
  wasm_vocab_size :: "'s \<Rightarrow> nat"

datatype error = Error string

record 's GuidanceParser =
  wasmParser :: 's
  isInitialized :: bool

text \<open>Every invocation of a method of the adapter is logged, also one that throws.\<close>

datatype call =
    IsTokenAllowed nat
  | GetTokenMask
  | Advance nat
  | IsComplete
  | Reset
  | VocabSize

type_synonym addr = nat

text \<open>
  The state a \<open>GuidanceLogitsProcessor\<close> lives in: its four fields (\<open>generatedTokens\<close>
  is a reference to a \<^verbatim>\<open>number[]\<close>), the store of \<^verbatim>\<open>number[]\<close> arrays with the next
  unused address, and the log of adapter calls. Console output of the debug mode is not
  part of the state.
\<close>

record 's state =
  parser :: "'s GuidanceParser"
  speculationDepth :: int
  debug :: bool
  generatedTokens :: addr
  heap :: "addr \<Rightarrow> nat list"
  next_addr :: addr
  calls :: "call list"

definition not_initialized :: error where
  "not_initialized =
     Error ''GuidanceParser not initialized. Use GuidanceParser.create() to create an instance.''"

definition ensureInitialized :: "'s GuidanceParser \<Rightarrow> error + unit" where
  "ensureInitialized p = (if \<not> isInitialized p then Inl not_initialized else Inr ())"

definition invoke :: "call \<Rightarrow> 's state \<Rightarrow> 's state" where
  "invoke c st = st\<lparr>calls := calls st @ [c]\<rparr>"

definition isTokenAllowed ::
  "'s LLGuidanceParser \<Rightarrow> nat \<Rightarrow> 's state \<Rightarrow> (error + bool) \<times> 's state" where
  "isTokenAllowed W tok st =
     (let st' = invoke (IsTokenAllowed tok) st in
      case ensureInitialized (parser st') of
        Inl e \<Rightarrow> (Inl e, st')
      | Inr u \<Rightarrow> (Inr (wasm_is_token_allowed W (wasmParser (parser st')) tok), st'))"

definition getTokenMask ::
  "'s LLGuidanceParser \<Rightarrow> 's state \<Rightarrow> (error + 8 word list) \<times> 's state" where
  "getTokenMask W st =
     (let st' = invoke GetTokenMask st in
      case ensureInitialized (parser st') of
        Inl e \<Rightarrow> (Inl e, st')
      | Inr u \<Rightarrow> (Inr (wasm_get_token_mask W (wasmParser (parser st'))), st'))"

definition advance ::
  "'s LLGuidanceParser \<Rightarrow> nat \<Rightarrow> 's state \<Rightarrow> (error + unit) \<times> 's state" where
  "advance W tok st =
     (let st' = invoke (Advance tok) st in
      case ensureInitialized (parser st') of
        Inl e \<Rightarrow> (Inl e, st')
      | Inr u \<Rightarrow>
          (Inr (), st'\<lparr>parser := (parser st')
             \<lparr>wasmParser := wasm_advance W (wasmParser (parser st')) tok\<rparr>\<rparr>))"

definition isComplete ::
  "'s LLGuidanceParser \<Rightarrow> 's state \<Rightarrow> (error + bool) \<times> 's state" where
  "isComplete W st =
     (let st' = invoke IsComplete st in
      case ensureInitialized (parser st') of
        Inl e \<Rightarrow> (Inl e, st')
      | Inr u \<Rightarrow> (Inr (wasm_is_complete W (wasmParser (parser st'))), st'))"

text \<open>\<open>parser.reset()\<close> without a grammar, the only form the processor uses.\<close>

definition parser_reset ::
  "'s LLGuidanceParser \<Rightarrow> 's state \<Rightarrow> (error + unit) \<times> 's state" where
  "parser_reset W st =
     (let st' = invoke Reset st in
      case ensureInitialized (parser st') of
        Inl e \<Rightarrow> (Inl e, st')
      | Inr u \<Rightarrow>
          (Inr (), st'\<lparr>parser := (parser st')
             \<lparr>wasmParser := wasm_reset W (wasmParser (parser st')) ''''\<rparr>\<rparr>))"

section \<open>GuidanceLogitsProcessor\<close>

text \<open>
  Modelled from the spec: \<open>ProcessorOptions\<close> is declared in \<^verbatim>\<open>types.ts\<close>, which is not part
  of the sources; both of its fields are optional.
\<close>

record ProcessorOptions =
  opt_speculationDepth :: "int option"
  opt_debug :: "bool option"

text \<open>\<open>alloc\<close> is the allocation of a new \<^verbatim>\<open>number[]\<close> with the given content.\<close>

definition alloc :: "nat list \<Rightarrow> 's state \<Rightarrow> addr \<times> 's state" where
  "alloc xs st =
     (next_addr st,
      st\<lparr>heap := (heap st)(next_addr st := xs), next_addr := Suc (next_addr st)\<rparr>)"

text \<open>
  The constructor, in a world that already has a store and a call log: the field
  initialiser allocates the empty history.
\<close>

definition constructor ::
  "'s GuidanceParser \<Rightarrow> ProcessorOptions \<Rightarrow> (addr \<Rightarrow> nat list) \<Rightarrow> addr \<Rightarrow> call list
     \<Rightarrow> 's state" where
  "constructor p options h n cs =
     \<lparr>parser = p,
      speculationDepth = (case opt_speculationDepth options of None \<Rightarrow> 5 | Some k \<Rightarrow> k),
      debug = (case opt_debug options of None \<Rightarrow> False | Some d \<Rightarrow> d),
      generatedTokens = n,
      heap = h(n := []),
      next_addr = Suc n,
      calls = cs\<rparr>"

text \<open>
  The body of the \<^verbatim>\<open>for\<close> loop of \<open>process\<close> over the candidates: \<open>Some\<close> is the
  \<^verbatim>\<open>return\<close> from inside the loop, \<open>None\<close> is falling out of it.
\<close>

fun process_loop ::
  "'s LLGuidanceParser \<Rightarrow> f32 list \<Rightarrow> candidate list \<Rightarrow> 's state
     \<Rightarrow> (error + f32 list option) \<times> 's state" where
  "process_loop W logits [] st = (Inr None, st)"
| "process_loop W logits (c # cs) st =
     (case isTokenAllowed W (tokenId c) st of
        (Inl e, st') \<Rightarrow> (Inl e, st')
      | (Inr ok, st') \<Rightarrow>
          if ok then (Inr (Some (maskAllExcept logits (tokenId c))), st')
          else process_loop W logits cs st')"

text \<open>
  The logits are passed by value and the model returns the content of the array
  \<open>process\<close> returns. On the fast path that is a new array and the caller's buffer is
  left alone; on the slow path it is the caller's buffer itself, overwritten by
  \<open>applyBitmask\<close>. The input ids are not used.
\<close>

definition process ::
  "candidate engine \<Rightarrow> 's LLGuidanceParser \<Rightarrow> nat list \<Rightarrow> f32 list \<Rightarrow> 's state
     \<Rightarrow> (error + f32 list) \<times> 's state" where
  "process E W inputIds logits st =
     (let topK = getTopK E logits (speculationDepth st) in
      case process_loop W logits topK st of
        (Inl e, st') \<Rightarrow> (Inl e, st')
      | (Inr (Some masked), st') \<Rightarrow> (Inr masked, st')
      | (Inr None, st') \<Rightarrow>
          (case getTokenMask W st' of
             (Inl e, st'') \<Rightarrow> (Inl e, st'')
           | (Inr allowedMask, st'') \<Rightarrow> (Inr (applyBitmask logits allowedMask), st'')))"

definition push :: "nat \<Rightarrow> 's state \<Rightarrow> 's state" where
  "push tok st =
     st\<lparr>heap := (heap st)(generatedTokens st := heap st (generatedTokens st) @ [tok])\<rparr>"

definition onToken ::
  "'s LLGuidanceParser \<Rightarrow> nat \<Rightarrow> 's state \<Rightarrow> (error + unit) \<times> 's state" where
  "onToken W tok st = advance W tok (push tok st)"

definition canStop :: "'s LLGuidanceParser \<Rightarrow> 's state \<Rightarrow> (error + bool) \<times> 's state" where
  "canStop W st = isComplete W st"

definition reset :: "'s LLGuidanceParser \<Rightarrow> 's state \<Rightarrow> (error + unit) \<times> 's state" where
  "reset W st =
     (case alloc [] st of
        (a, st') \<Rightarrow> parser_reset W (st'\<lparr>generatedTokens := a\<rparr>))"

text \<open>
  \<^verbatim>\<open>[...this.generatedTokens]\<close> builds a new array from the elements of the history and
  returns the reference to it.
\<close>

definition getGeneratedTokens :: "'s state \<Rightarrow> addr \<times> 's state" where
  "getGeneratedTokens st = alloc (heap st (generatedTokens st)) st"

section \<open>The tokenizer bridge\<close>

text \<open>
  A vocabulary arrives as a \<^verbatim>\<open>Map<string, number>\<close> (its entries, in iteration order) or as
  a plain record. Both are objects, hence truthy whenever the field is present.
\<close>

type_synonym vocabulary = "string \<rightharpoonup> nat"

datatype vocab_source = MapVocab "(string \<times> nat) list" | RecordVocab vocabulary

record AddedTokenInput =
  in_id :: nat
  in_content :: string
  in_single_word :: "bool option"
  in_lstrip :: "bool option"
  in_rstrip :: "bool option"
  in_normalized :: "bool option"
  in_special :: "bool option"

record AddedToken =
  token_id :: nat
  content :: string
  single_word :: bool
  lstrip :: bool
  rstrip :: bool
  normalized :: bool
  special :: bool

record TokenizerModel =
  model_vocab :: "vocab_source option"
  model_merges :: "string list option"

text \<open>
  \<open>tk_getVocab\<close> is the record the accessor \<^verbatim>\<open>getVocab()\<close> returns, when the tokenizer
  has the method. The \<^verbatim>\<open>encode\<close> method is never used.
\<close>

record TransformersTokenizer =
  tk_model :: "TokenizerModel option"
  tk_vocab :: "vocab_source option"
  tk_added_tokens :: "AddedTokenInput list option"
  tk_getVocab :: "vocabulary option"

text \<open>
  Modelled from the spec: \<open>TokenizerData\<close> is declared in \<^verbatim>\<open>types.ts\<close>, which is not part
  of the sources; its fields are the ones the two producers below write. The parsing path
  leaves \<open>added_tokens\<close> undefined when the document has none.
\<close>

record TokenizerData =
  vocab :: vocabulary
  merges :: "string list"
  added_tokens :: "AddedToken list option"
  model_type :: string

text \<open>
  \<open>mapToRecord\<close> copies the entries of a \<^verbatim>\<open>Map\<close> into a new plain object with
  \<^verbatim>\<open>result[key] = value\<close>. For the key \<^verbatim>\<open>__proto__\<close> that assignment reaches the setter
  of \<^verbatim>\<open>Object.prototype\<close>, which ignores a number: the entry is dropped. A record is
  returned as it is.
\<close>

fun mapToRecord :: "vocab_source \<Rightarrow> vocabulary" where
  "mapToRecord (MapVocab entries) =
     foldl (\<lambda>result (key, val). if key = ''__proto__'' then result else result(key \<mapsto> val))
       Map.empty entries"
| "mapToRecord (RecordVocab r) = r"

definition tokenizer_model_vocab :: "TransformersTokenizer \<Rightarrow> vocab_source option" where
  "tokenizer_model_vocab tokenizer =
     (case tk_model tokenizer of None \<Rightarrow> None | Some m \<Rightarrow> model_vocab m)"

definition tokenizer_model_merges :: "TransformersTokenizer \<Rightarrow> string list option" where
  "tokenizer_model_merges tokenizer =
     (case tk_model tokenizer of None \<Rightarrow> None | Some m \<Rightarrow> model_merges m)"

definition detectModelType :: "TransformersTokenizer \<Rightarrow> string" where
  "detectModelType tokenizer =
     (case tokenizer_model_merges tokenizer of
        None \<Rightarrow> ''unknown''
      | Some ms \<Rightarrow> if length ms > 0 then ''bpe'' else ''unknown'')"

definition vocabulary_error :: error where
  "vocabulary_error =
     Error (''Unable to extract vocabulary from tokenizer. '' @
            ''Ensure you are passing a valid transformer.js tokenizer instance.'')"

definition extractTokenizerData :: "TransformersTokenizer \<Rightarrow> error + TokenizerData" where
  "extractTokenizerData tokenizer =
     (case (case tk_getVocab tokenizer of
              Some v \<Rightarrow> Inr v
            | None \<Rightarrow>
               (case tokenizer_model_vocab tokenizer of
                  Some v \<Rightarrow> Inr (mapToRecord v)
                | None \<Rightarrow>
                   (case tk_vocab tokenizer of
                      Some v \<Rightarrow> Inr (mapToRecord v)
                    | None \<Rightarrow> Inl vocabulary_error))) of
        Inl e \<Rightarrow> Inl e
      | Inr v \<Rightarrow>
          Inr \<lparr>vocab = v,
               merges = (case tokenizer_model_merges tokenizer of None \<Rightarrow> [] | Some ms \<Rightarrow> ms),
               added_tokens = Some (map (\<lambda>token.
                  \<lparr>token_id = in_id token,
                   content = in_content token,
                   single_word = (case in_single_word token of None \<Rightarrow> False | Some b \<Rightarrow> b),
                   lstrip = (case in_lstrip token of None \<Rightarrow> False | Some b \<Rightarrow> b),
                   rstrip = (case in_rstrip token of None \<Rightarrow> False | Some b \<Rightarrow> b),
                   normalized = (case in_normalized token of None \<Rightarrow> True | Some b \<Rightarrow> b),
                   special = (case in_special token of None \<Rightarrow> False | Some b \<Rightarrow> b)\<rparr>)
                  (case tk_added_tokens tokenizer of None \<Rightarrow> [] | Some ts \<Rightarrow> ts)),
               model_type = detectModelType tokenizer\<rparr>)"

text \<open>The decoded \<^verbatim>\<open>tokenizer.json\<close>, seen through the type \<open>parseTokenizerJson\<close> casts it to.\<close>

record TokenizerJsonModel =
  json_vocab :: "vocabulary option"
  json_merges :: "string list option"
  json_type :: "string option"

record TokenizerJson =
  json_model :: "TokenizerJsonModel option"
  json_added_tokens :: "AddedTokenInput list option"

definition descriptor_error :: error where
  "descriptor_error = Error ''Invalid tokenizer.json: missing model.vocab''"

definition parseTokenizerJson :: "TokenizerJson \<Rightarrow> error + TokenizerData" where
  "parseTokenizerJson data =
     (case json_model data of
        None \<Rightarrow> Inl descriptor_error
      | Some m \<Rightarrow>
         (case json_vocab m of
            None \<Rightarrow> Inl descriptor_error
          | Some v \<Rightarrow>
             Inr \<lparr>vocab = v,
                  merges = (case json_merges m of None \<Rightarrow> [] | Some ms \<Rightarrow> ms),
                  added_tokens =
                    (case json_added_tokens data of
                       None \<Rightarrow> None
                     | Some ts \<Rightarrow> Some (map (\<lambda>token.
                         \<lparr>token_id = in_id token,
                          content = in_content token,
                          single_word = (case in_single_word token of None \<Rightarrow> False | Some b \<Rightarrow> b),
                          lstrip = (case in_lstrip token of None \<Rightarrow> False | Some b \<Rightarrow> b),
                          rstrip = (case in_rstrip token of None \<Rightarrow> False | Some b \<Rightarrow> b),
                          normalized = (case in_normalized token of None \<Rightarrow> True | Some b \<Rightarrow> b),
                          special = (case in_special token of None \<Rightarrow> False | Some b \<Rightarrow> b)\<rparr>) ts)),
                  model_type = (case json_type m of None \<Rightarrow> ''unknown'' | Some t \<Rightarrow> t)\<rparr>))"

section \<open>Grammar translation\<close>

datatype json =
    JNull
  | JBool bool
  | JNumber int
  | JString string
  | JArray "json list"
  | JObject "(string \<times> json) list"

text \<open>
  Modelled from the spec: the union \<open>Grammar\<close> is declared in \<^verbatim>\<open>types.ts\<close>, which is not
  part of the sources. It is the closed variant of three tags; the constructors carry the
  fields \<open>convertGrammar\<close> reads for each value of \<^verbatim>\<open>type\<close>: \<^verbatim>\<open>schema\<close> for
  \<^verbatim>\<open>json_schema\<close>, \<^verbatim>\<open>pattern\<close> for \<^verbatim>\<open>regex\<close>, and \<^verbatim>\<open>grammar\<close> with the optional
  \<^verbatim>\<open>startSymbol\<close> for \<^verbatim>\<open>lark\<close>.
\<close>

datatype Grammar =
    JsonSchemaGrammar json
  | RegexGrammar string
  | LarkGrammar string "string option"

fun convertGrammar :: "Grammar \<Rightarrow> json" where
  "convertGrammar (JsonSchemaGrammar schema) =
     JObject [(''grammars'', JArray [JObject [(''json_schema'', schema)]])]"
| "convertGrammar (RegexGrammar pattern) =
     JObject [(''grammars'', JArray [JObject [(''rx'', JString pattern)]])]"
| "convertGrammar (LarkGrammar grammar startSymbol) =
     JObject [(''grammars'', JArray [JObject
       [(''lark'', JString grammar),
        (''start'', JString (case startSymbol of None \<Rightarrow> ''start'' | Some s \<Rightarrow> s))]])]"

section \<open>Notions used to state the properties\<close>

text \<open>
  Candidate \<open>a\<close> is ranked before \<open>b\<close>: a greater logit, or the same logit and a smaller
  token id.
\<close>

definition ranked_before :: "candidate \<Rightarrow> candidate \<Rightarrow> bool" where
  "ranked_before a b =
     (f32_gt (logit a) (logit b) \<or> (f32_eq (logit a) (logit b) \<and> tokenId a < tokenId b))"

text \<open>
  Token \<open>t\<close> is the top-ranked one: no logit is greater than its own, and every token
  with a smaller id has a smaller logit. A vector with a NaN has no top-ranked token.
\<close>

definition top_ranked :: "f32 list \<Rightarrow> nat \<Rightarrow> bool" where
  "top_ranked logits t =
     (t < length logits
      \<and> (\<forall>j<length logits. f32_ge (logits ! t) (logits ! j))
      \<and> (\<forall>j<t. f32_gt (logits ! t) (logits ! j)))"

text \<open>The adapter calls logged between two states, and the token ids queried among them.\<close>

definition issued :: "'s state \<Rightarrow> 's state \<Rightarrow> call list" where
  "issued st st' = drop (length (calls st)) (calls st')"

fun queried :: "call list \<Rightarrow> nat list" where
  "queried [] = []"
| "queried (IsTokenAllowed t # cs) = t # queried cs"
| "queried (c # cs) = queried cs"

fun is_query :: "call \<Rightarrow> bool" where
  "is_query (IsTokenAllowed t) = True"
| "is_query GetTokenMask = True"
| "is_query c = False"

definition query_of :: "candidate \<Rightarrow> call" where
  "query_of c = IsTokenAllowed (tokenId c)"

text \<open>The content of the history array, and the public operations as a sequence of calls.\<close>

definition history :: "'s state \<Rightarrow> nat list" where
  "history st = heap st (generatedTokens st)"

datatype operation =
    OnToken nat
  | Process "nat list" "f32 list"
  | CanStop
  | ResetProcessor
  | GetGeneratedTokens

fun apply_operation ::
  "candidate engine \<Rightarrow> 's LLGuidanceParser \<Rightarrow> 's state \<Rightarrow> operation \<Rightarrow> 's state" where
  "apply_operation E W st (OnToken tok) = snd (onToken W tok st)"
| "apply_operation E W st (Process inputIds logits) = snd (process E W inputIds logits st)"
| "apply_operation E W st CanStop = snd (canStop W st)"
| "apply_operation E W st ResetProcessor = snd (reset W st)"
| "apply_operation E W st GetGeneratedTokens = snd (getGeneratedTokens st)"

definition run ::
  "candidate engine \<Rightarrow> 's LLGuidanceParser \<Rightarrow> operation list \<Rightarrow> 's state \<Rightarrow> 's state" where
  "run E W ops st = foldl (apply_operation E W) st ops"

text \<open>The token ids passed to \<open>onToken\<close> since the last reset, one operation at a time.\<close>

fun emitted :: "nat list \<Rightarrow> operation \<Rightarrow> nat list" where
  "emitted toks (OnToken tok) = toks @ [tok]"
| "emitted toks ResetProcessor = []"
| "emitted toks other = toks"

text \<open>The history array lies in the allocated part of the store.\<close>

definition allocated :: "'s state \<Rightarrow> bool" where
  "allocated st = (generatedTokens st < next_addr st)"

text \<open>The defaults of the optional flags of an added token, as the data model lists them.\<close>

fun flag_or :: "bool \<Rightarrow> bool option \<Rightarrow> bool" where
  "flag_or d None = d"
| "flag_or d (Some b) = b"

definition with_default_flags :: "AddedTokenInput \<Rightarrow> AddedToken" where
  "with_default_flags t =
     \<lparr>token_id = in_id t, content = in_content t,
      single_word = flag_or False (in_single_word t),
      lstrip = flag_or False (in_lstrip t),
      rstrip = flag_or False (in_rstrip t),
      normalized = flag_or True (in_normalized t),
      special = flag_or False (in_special t)\<rparr>"

text \<open>
  Concrete inputs, after the mocks of \<^verbatim>\<open>processor.test.ts\<close>: a parser whose answers are
  fixed, a processor of speculation depth 3 on it, and a small logits vector whose
  ranking is 1, 2, 4, 3, 0, 5. The engine \<open>idle_engine\<close> leaves an array with an
  inconsistent comparator as it is; the logits below have no NaN, so it is never
  consulted on them.
\<close>

definition idle_engine :: "candidate engine" where
  "idle_engine cmp xs = xs"

definition mock_parser :: "(nat \<Rightarrow> bool) \<Rightarrow> 8 word list \<Rightarrow> unit LLGuidanceParser" where
  "mock_parser allowed bits =
     \<lparr>wasm_is_token_allowed = (\<lambda>s. allowed),
      wasm_get_token_mask = (\<lambda>s. bits),
      wasm_advance = (\<lambda>s tok. s),
      wasm_is_complete = (\<lambda>s. False),
      wasm_reset = (\<lambda>s grammar. s),
      wasm_vocab_size = (\<lambda>s. length bits)\<rparr>"

definition mock_state :: "unit state" where
  "mock_state =
     constructor \<lparr>wasmParser = (), isInitialized = True\<rparr>
       \<lparr>opt_speculationDepth = Some 3, opt_debug = Some False\<rparr> (\<lambda>a. []) 0 []"

definition sample_logits :: "f32 list" where
  "sample_logits = [Finite 1, Finite 10, Finite 5, Finite 3, Finite 5, NegInfinity]"

text \<open>
  The logits of the speculation tests of \<^verbatim>\<open>processor.test.ts\<close>, on eight tokens instead of
  a hundred: the three best ids are 5, 3 and 7.
\<close>

definition test_logits :: "f32 list" where
  "test_logits =
     [Finite (-10), Finite (-10), Finite (-10), Finite 5, Finite (-10), Finite 10,
      Finite (-10), Finite 3]"

text \<open>
  A descriptor document with the vocabulary and the merge rules of the end-to-end example
  and no \<^verbatim>\<open>type\<close> field.
\<close>

definition untyped_bpe_descriptor :: TokenizerJson where
  "untyped_bpe_descriptor =
     \<lparr>json_model = Some
        \<lparr>json_vocab = Some [''hello'' \<mapsto> 0, ''world'' \<mapsto> 1, ''!'' \<mapsto> 2],
         json_merges = Some [''h e'', ''l l'', ''o w''],
         json_type = None\<rparr>,
      json_added_tokens = None\<rparr>"

section \<open>The ranking computed by getTopK\<close>

lemma is_positive_sub: "is_positive (f32_sub x y) = f32_gt x y"
  by (cases x; cases y) auto

lemma f32_gt_trans: "f32_gt x y \<Longrightarrow> f32_gt y z \<Longrightarrow> f32_gt x z"
  by (cases x; cases y; cases z) auto

lemma f32_gt_total: "x \<noteq> NaN \<Longrightarrow> y \<noteq> NaN \<Longrightarrow> f32_gt x y \<or> x = y \<or> f32_gt y x"
  by (cases x; cases y) auto

lemma f32_gt_asym: "f32_gt x y \<Longrightarrow> \<not> f32_gt y x"
  by (cases x; cases y) auto

lemma f32_gt_irrefl: "\<not> f32_gt x x"
  by (cases x) auto

lemma ranked_before_trans:
  "ranked_before a b \<Longrightarrow> ranked_before b c \<Longrightarrow> ranked_before a c"
  unfolding ranked_before_def f32_eq_def using f32_gt_trans by (metis order_less_trans)

lemma set_insert_sorted: "set (insert_sorted cmp x ys) = insert x (set ys)"
  by (induction ys) auto

lemma length_insert_sorted: "length (insert_sorted cmp x ys) = Suc (length ys)"
  by (induction ys) auto

lemma set_stable_sort: "set (stable_sort cmp xs) = set xs"
  unfolding stable_sort_def by (induction xs) (auto simp: set_insert_sorted)

lemma length_stable_sort: "length (stable_sort cmp xs) = length xs"
  unfolding stable_sort_def by (induction xs) (auto simp: length_insert_sorted)

lemma sorted_insert_sorted:
  assumes "sorted_wrt ranked_before ys"
    and "\<forall>y\<in>set ys. tokenId x < tokenId y"
    and "logit x \<noteq> NaN" and "\<forall>y\<in>set ys. logit y \<noteq> NaN"
  shows "sorted_wrt ranked_before (insert_sorted by_logit_desc x ys)"
  using assms
proof (induction ys)
  case Nil
  then show ?case by simp
next
  case (Cons y ys)
  show ?case
  proof (cases "f32_gt (logit y) (logit x)")
    case True
    then have "ranked_before y x" by (simp add: ranked_before_def)
    with Cons True show ?thesis
      by (auto simp: by_logit_desc_def is_positive_sub set_insert_sorted)
  next
    case False
    with Cons.prems have xy: "ranked_before x y"
      using f32_gt_total [of "logit x" "logit y"] by (auto simp: ranked_before_def f32_eq_def)
    then have "\<forall>z\<in>set ys. ranked_before x z"
      using Cons.prems(1) ranked_before_trans by auto
    with xy False Cons.prems(1) show ?thesis
      by (auto simp: by_logit_desc_def is_positive_sub)
  qed
qed

lemma sorted_stable_sort_aux:
  assumes "sorted_wrt (\<lambda>a b. tokenId a < tokenId b) xs" "\<forall>x\<in>set xs. logit x \<noteq> NaN"
  shows "sorted_wrt ranked_before (stable_sort by_logit_desc xs)"
  using assms
proof (induction xs)
  case Nil
  then show ?case by (simp add: stable_sort_def)
next
  case (Cons x xs)
  have "sorted_wrt ranked_before (insert_sorted by_logit_desc x (stable_sort by_logit_desc xs))"
    using Cons by (intro sorted_insert_sorted) (auto simp: set_stable_sort)
  then show ?case by (simp add: stable_sort_def)
qed

lemma set_indexed: "set (indexed logits) = (\<lambda>i. \<lparr>tokenId = i, logit = logits ! i\<rparr>) ` {..<length logits}"
  by (auto simp: indexed_def)

lemma sorted_indexed: "sorted_wrt (\<lambda>a b. tokenId a < tokenId b) (indexed logits)"
  by (simp add: indexed_def sorted_wrt_map sorted_wrt_upt)

lemma is_negative_sub: "is_negative (f32_sub x y) = f32_gt y x"
  by (cases x; cases y) auto

lemma cf_by_logit_desc:
  "cf_lt by_logit_desc a b = f32_gt (logit a) (logit b)"
  "cf_gt by_logit_desc a b = f32_gt (logit b) (logit a)"
  "cf_eq by_logit_desc a b = (\<not> f32_gt (logit a) (logit b) \<and> \<not> f32_gt (logit b) (logit a))"
  by (simp_all add: cf_lt_def cf_gt_def cf_eq_def by_logit_desc_def is_negative_sub
      is_positive_sub)

lemma f32_incomparable_trans:
  assumes "y \<noteq> NaN" "\<not> f32_gt x y" "\<not> f32_gt y x" "\<not> f32_gt y z" "\<not> f32_gt z y"
  shows "\<not> f32_gt x z \<and> \<not> f32_gt z x"
  using assms by (cases x; cases y; cases z) auto

lemma consistent_by_logit_desc:
  assumes "\<forall>x\<in>set xs. logit x \<noteq> NaN"
  shows "consistent by_logit_desc xs"
  unfolding consistent_def cf_by_logit_desc
proof (intro conjI ballI impI)
  fix a b c
  assume "a \<in> set xs" "b \<in> set xs" "c \<in> set xs"
    and "(\<not> f32_gt (logit a) (logit b) \<and> \<not> f32_gt (logit b) (logit a))
       \<and> \<not> f32_gt (logit b) (logit c) \<and> \<not> f32_gt (logit c) (logit b)"
  then show "\<not> f32_gt (logit a) (logit c)" "\<not> f32_gt (logit c) (logit a)"
    using assms f32_incomparable_trans [of "logit b" "logit a" "logit c"] by auto
qed (auto simp: f32_gt_irrefl intro: f32_gt_trans)

lemma array_sort_no_NaN:
  "NaN \<notin> set logits \<Longrightarrow>
   array_sort E by_logit_desc (indexed logits) = stable_sort by_logit_desc (indexed logits)"
proof -
  assume "NaN \<notin> set logits"
  then have "\<forall>x\<in>set (indexed logits). logit x \<noteq> NaN"
    by (auto simp: set_indexed) (metis nth_mem)
  then show ?thesis by (simp add: array_sort_def consistent_by_logit_desc)
qed

lemma getTopK_no_NaN:
  "NaN \<notin> set logits \<Longrightarrow>
   getTopK E logits k = slice0 (stable_sort by_logit_desc (indexed logits)) k"
  by (simp add: getTopK_def array_sort_no_NaN)

lemma top_ranked_no_NaN:
  assumes "top_ranked logits t" shows "NaN \<notin> set logits"
proof
  assume "NaN \<in> set logits"
  then obtain j where "j < length logits" "logits ! j = NaN" by (auto simp: in_set_conv_nth)
  with assms show False by (auto simp: top_ranked_def f32_ge_def)
qed

lemma sorted_ranking:
  assumes "NaN \<notin> set logits"
  shows "sorted_wrt ranked_before (stable_sort by_logit_desc (indexed logits))"
proof (rule sorted_stable_sort_aux)
  show "sorted_wrt (\<lambda>a b. tokenId a < tokenId b) (indexed logits)" by (rule sorted_indexed)
  show "\<forall>x\<in>set (indexed logits). logit x \<noteq> NaN"
    using assms by (auto simp: set_indexed) (metis nth_mem)
qed

lemma getTopK_head:
  assumes top: "top_ranked logits t" and k: "1 \<le> k"
  shows "\<exists>cs. getTopK E logits k = \<lparr>tokenId = t, logit = logits ! t\<rparr> # cs"
proof -
  note nonan = top_ranked_no_NaN [OF top]
  let ?L = "stable_sort by_logit_desc (indexed logits)"
  let ?c = "\<lparr>tokenId = t, logit = logits ! t\<rparr>"
  have t: "t < length logits" using top by (simp add: top_ranked_def)
  have srt: "sorted_wrt ranked_before ?L"
    using top_ranked_no_NaN [OF top] by (rule sorted_ranking)
  have len: "length ?L = length logits" by (simp add: length_stable_sort indexed_def)
  with t obtain h tl where L: "?L = h # tl" by (cases ?L) auto
  have mem: "set ?L = set (indexed logits)" by (rule set_stable_sort)
  have "h \<in> set (indexed logits)" using L mem by (metis list.set_intros(1))
  then obtain j where j: "j < length logits" "h = \<lparr>tokenId = j, logit = logits ! j\<rparr>"
    by (auto simp: set_indexed)
  have "j = t"
  proof (rule ccontr)
    assume ne: "j \<noteq> t"
    have "?c \<in> set ?L" using t by (simp add: mem set_indexed)
    with L ne j have "?c \<in> set tl" by auto
    with srt L have "ranked_before h ?c" by auto
    then have "f32_gt (logits ! j) (logits ! t) \<or> (logits ! j = logits ! t \<and> j < t)"
      by (auto simp: ranked_before_def f32_eq_def j)
    moreover have "f32_ge (logits ! t) (logits ! j)" using top j by (simp add: top_ranked_def)
    moreover have "j < t \<longrightarrow> f32_gt (logits ! t) (logits ! j)" using top by (simp add: top_ranked_def)
    ultimately show False
      unfolding f32_ge_def by (metis f32_gt_asym f32_gt_irrefl)
  qed
  with j L have L': "?L = ?c # tl" by simp
  from k t len obtain m where "nat (min k (int (length ?L))) = Suc m"
    by (cases "nat (min k (int (length ?L)))") auto
  with k L' show ?thesis by (auto simp: getTopK_no_NaN [OF nonan] slice0_def Let_def)
qed



section \<open>The two masks\<close>

lemma length_maskAllExcept: "length (maskAllExcept logits t) = length logits"
  by (simp add: maskAllExcept_def)

lemma nth_maskAllExcept:
  "i < length logits \<Longrightarrow>
   maskAllExcept logits t ! i = (if i = t then logits ! t else NegInfinity)"
  by (simp add: maskAllExcept_def nth_list_update)

lemma applyBitmask_upto:
  "n \<le> length logits \<Longrightarrow>
   length (foldl (\<lambda>l i. if mask_is_zero bits i then l[i := NegInfinity] else l) logits [0..<n])
     = length logits
   \<and> (\<forall>i<length logits.
        foldl (\<lambda>l i. if mask_is_zero bits i then l[i := NegInfinity] else l) logits [0..<n] ! i
          = (if i < n \<and> mask_is_zero bits i then NegInfinity else logits ! i))"
proof (induction n)
  case 0
  then show ?case by simp
next
  case (Suc n)
  then show ?case by (auto simp: nth_list_update less_Suc_eq)
qed

lemma length_applyBitmask: "length (applyBitmask logits bits) = length logits"
  using applyBitmask_upto [of "length logits" logits bits] by (simp add: applyBitmask_def)

lemma nth_applyBitmask:
  "i < length logits \<Longrightarrow>
   applyBitmask logits bits ! i = (if mask_is_zero bits i then NegInfinity else logits ! i)"
  using applyBitmask_upto [of "length logits" logits bits] by (simp add: applyBitmask_def)

section \<open>The speculation loop\<close>

lemma isTokenAllowed_eq:
  "isTokenAllowed W tok st =
     (if isInitialized (parser st)
      then Inr (wasm_is_token_allowed W (wasmParser (parser st)) tok)
      else Inl not_initialized,
      invoke (IsTokenAllowed tok) st)"
  by (simp add: isTokenAllowed_def ensureInitialized_def invoke_def Let_def)

lemma getTokenMask_eq:
  "getTokenMask W st =
     (if isInitialized (parser st)
      then Inr (wasm_get_token_mask W (wasmParser (parser st)))
      else Inl not_initialized,
      invoke GetTokenMask st)"
  by (simp add: getTokenMask_def ensureInitialized_def invoke_def Let_def)

lemma parser_invoke [simp]: "parser (invoke c st) = parser st"
  by (simp add: invoke_def)

lemma invoke_as_update: "invoke c st = st\<lparr>calls := calls st @ [c]\<rparr>"
  by (simp add: invoke_def)

lemma process_loop_uninit:
  "\<not> isInitialized (parser st) \<Longrightarrow>
   process_loop W logits cs st =
     (case cs of
        [] \<Rightarrow> (Inr None, st)
      | c # rest \<Rightarrow> (Inl not_initialized, st\<lparr>calls := calls st @ [query_of c]\<rparr>))"
  by (cases cs) (simp_all add: isTokenAllowed_eq invoke_as_update query_of_def)

lemma process_loop_init:
  "isInitialized (parser st) \<Longrightarrow>
   process_loop W logits cs st =
     (case dropWhile (\<lambda>c. \<not> wasm_is_token_allowed W (wasmParser (parser st)) (tokenId c)) cs of
        [] \<Rightarrow> (Inr None, st\<lparr>calls := calls st @ map query_of cs\<rparr>)
      | c # rest \<Rightarrow>
          (Inr (Some (maskAllExcept logits (tokenId c))),
           st\<lparr>calls := calls st @
              map query_of
                (takeWhile (\<lambda>c. \<not> wasm_is_token_allowed W (wasmParser (parser st)) (tokenId c)) cs
                 @ [c])\<rparr>))"
proof (induction cs arbitrary: st)
  case Nil
  then show ?case by simp
next
  case (Cons c cs)
  let ?st = "invoke (IsTokenAllowed (tokenId c)) st"
  show ?case
  proof (cases "wasm_is_token_allowed W (wasmParser (parser st)) (tokenId c)")
    case True
    with Cons.prems show ?thesis
      by (simp add: isTokenAllowed_eq invoke_as_update query_of_def)
  next
    case False
    have "isInitialized (parser ?st)" using Cons.prems by simp
    from Cons.IH [OF this] False Cons.prems show ?thesis
      by (cases "dropWhile (\<lambda>c. \<not> wasm_is_token_allowed W (wasmParser (parser st)) (tokenId c)) cs")
        (simp_all add: isTokenAllowed_eq invoke_as_update query_of_def
          del: dropWhile_eq_Nil_conv)
  qed
qed

lemma count_queries: "count_list (map query_of cs) GetTokenMask = 0"
  by (induction cs) (auto simp: query_of_def)

lemma issued_update [simp]: "issued st (st\<lparr>calls := calls st @ xs\<rparr>) = xs"
  by (simp add: issued_def)

lemma queried_append: "queried (xs @ ys) = queried xs @ queried ys"
  by (induction xs rule: queried.induct) auto

lemma queried_queries: "queried (map query_of cs) = map tokenId cs"
  by (induction cs) (auto simp: query_of_def)

lemma process_eq:
  "process E W inputIds logits st =
     (let cs = getTopK E logits (speculationDepth st);
          rejected = (\<lambda>c. \<not> wasm_is_token_allowed W (wasmParser (parser st)) (tokenId c))
      in if \<not> isInitialized (parser st)
         then (Inl not_initialized,
               st\<lparr>calls := calls st @ (case cs of [] \<Rightarrow> [GetTokenMask] | c # rest \<Rightarrow> [query_of c])\<rparr>)
         else (case dropWhile rejected cs of
                 [] \<Rightarrow> (Inr (applyBitmask logits (wasm_get_token_mask W (wasmParser (parser st)))),
                        st\<lparr>calls := calls st @ map query_of cs @ [GetTokenMask]\<rparr>)
               | c # rest \<Rightarrow> (Inr (maskAllExcept logits (tokenId c)),
                        st\<lparr>calls := calls st @ map query_of (takeWhile rejected cs @ [c])\<rparr>)))"
proof (cases "isInitialized (parser st)")
  case True
  show ?thesis
    using True
    by (simp add: process_def process_loop_init [OF True] getTokenMask_eq invoke_as_update Let_def
        split: list.splits del: dropWhile_eq_Nil_conv)
next
  case False
  show ?thesis
    using False
    by (simp add: process_def process_loop_uninit [OF False] getTokenMask_eq invoke_as_update
        Let_def split: list.splits)
qed

lemma process_frame_aux:
  "\<exists>tr. snd (process E W inputIds logits st) = st\<lparr>calls := calls st @ tr\<rparr>
        \<and> list_all is_query tr
        \<and> prefix (queried tr) (map tokenId (getTopK E logits (speculationDepth st)))"
proof -
  let ?cs = "getTopK E logits (speculationDepth st)"
  let ?rej = "\<lambda>c. \<not> wasm_is_token_allowed W (wasmParser (parser st)) (tokenId c)"
  have q: "list_all is_query (map query_of xs)" for xs
    by (induction xs) (auto simp: query_of_def)
  show ?thesis
  proof (cases "isInitialized (parser st)")
    case False
    then show ?thesis
      by (cases ?cs) (auto simp: process_eq Let_def query_of_def)
  next
    case True
    show ?thesis
    proof (cases "dropWhile ?rej ?cs")
      case Nil
      with True show ?thesis
        by (auto simp: process_eq Let_def q queried_append queried_queries
            simp del: dropWhile_eq_Nil_conv)
    next
      case (Cons c rest)
      have "?cs = (takeWhile ?rej ?cs @ [c]) @ rest"
        using takeWhile_dropWhile_id [of ?rej ?cs] Cons by simp
      then have "prefix (map tokenId (takeWhile ?rej ?cs @ [c])) (map tokenId ?cs)"
        by (metis map_append prefixI)
      with True Cons show ?thesis
        using q [of "takeWhile ?rej ?cs @ [c]"]
        by (auto simp: process_eq Let_def queried_queries simp del: dropWhile_eq_Nil_conv map_append)
    qed
  qed
qed







section \<open>The history\<close>

lemma advance_frame:
  "heap (snd (advance W tok st)) = heap st
   \<and> generatedTokens (snd (advance W tok st)) = generatedTokens st
   \<and> next_addr (snd (advance W tok st)) = next_addr st"
  by (simp add: advance_def invoke_def ensureInitialized_def Let_def)

lemma isComplete_frame:
  "heap (snd (isComplete W st)) = heap st
   \<and> generatedTokens (snd (isComplete W st)) = generatedTokens st
   \<and> next_addr (snd (isComplete W st)) = next_addr st"
  by (simp add: isComplete_def invoke_def ensureInitialized_def Let_def)

lemma parser_reset_frame:
  "heap (snd (parser_reset W st)) = heap st
   \<and> generatedTokens (snd (parser_reset W st)) = generatedTokens st
   \<and> next_addr (snd (parser_reset W st)) = next_addr st"
  by (simp add: parser_reset_def invoke_def ensureInitialized_def Let_def)

lemma process_frame:
  "heap (snd (process E W inputIds logits st)) = heap st
   \<and> generatedTokens (snd (process E W inputIds logits st)) = generatedTokens st
   \<and> next_addr (snd (process E W inputIds logits st)) = next_addr st"
proof -
  from process_frame_aux [of E W inputIds logits st] obtain tr
    where "snd (process E W inputIds logits st) = st\<lparr>calls := calls st @ tr\<rparr>" by blast
  then show ?thesis by simp
qed

lemma history_onToken: "history (snd (onToken W tok st)) = history st @ [tok]"
  by (simp add: history_def onToken_def advance_frame push_def)

lemma history_reset: "history (snd (reset W st)) = []"
  by (simp add: history_def reset_def alloc_def parser_reset_frame)

lemma history_getGeneratedTokens: "history (snd (getGeneratedTokens st)) = history st"
  by (simp add: history_def getGeneratedTokens_def alloc_def)

lemma getGeneratedTokens_copy:
  "heap (snd (getGeneratedTokens st)) (fst (getGeneratedTokens st)) = history st"
  by (simp add: history_def getGeneratedTokens_def alloc_def)

lemma history_process: "history (snd (process E W inputIds logits st)) = history st"
  by (simp add: history_def process_frame)

lemma history_canStop: "history (snd (canStop W st)) = history st"
  by (simp add: history_def canStop_def isComplete_frame)

lemma history_apply_operation: "history (apply_operation E W st x) = emitted (history st) x"
  by (cases x)
    (simp_all add: history_onToken history_reset history_getGeneratedTokens history_canStop
      history_process)

lemma history_run: "history (run E W ops st) = foldl emitted (history st) ops"
  unfolding run_def by (induction ops arbitrary: st) (simp_all add: history_apply_operation)

lemma history_constructor: "history (constructor p options h n cs) = []"
  by (simp add: history_def constructor_def)

lemma emitted_tokens: "foldl emitted toks0 (map OnToken toks) = toks0 @ toks"
  by (induction toks arbitrary: toks0) simp_all

lemma allocated_constructor: "allocated (constructor p options h n cs)"
  by (simp add: allocated_def constructor_def)

lemma allocated_apply_operation: "allocated st \<Longrightarrow> allocated (apply_operation E W st x)"
  by (cases x)
    (simp_all add: allocated_def onToken_def advance_frame push_def process_frame canStop_def
      isComplete_frame reset_def alloc_def parser_reset_frame getGeneratedTokens_def)

lemma allocated_run: "allocated st \<Longrightarrow> allocated (run E W ops st)"
  unfolding run_def by (induction ops arbitrary: st) (simp_all add: allocated_apply_operation)

lemma allocated_reachable: "allocated (run E W ops (constructor p options h n cs))"
  by (simp add: allocated_run allocated_constructor)

lemma flag_or_case: "(case x of None \<Rightarrow> d | Some b \<Rightarrow> b) = flag_or d x"
  by (cases x) auto

section \<open>The conversion of a Map\<close>

lemma mapToRecord_entries:
  "mapToRecord (MapVocab [(''alpha'', 0), (''beta'', 1)]) = [''alpha'' \<mapsto> 0, ''beta'' \<mapsto> 1]"
  by simp

lemma mapToRecord_proto:
  "mapToRecord (MapVocab [(''__proto__'', 7), (''alpha'', 0)]) = [''alpha'' \<mapsto> 0]"
  by simp

section \<open>The speculation tests of the repository, on the model\<close>

text \<open>
  The three cases of \<^verbatim>\<open>process() - speculative decoding\<close>: the best token allowed; only the
  third candidate allowed; no candidate allowed and a full mask that allows one token.
\<close>

lemma test_logits_top3:
  "getTopK E test_logits 3 =
     [\<lparr>tokenId = 5, logit = Finite 10\<rparr>, \<lparr>tokenId = 3, logit = Finite 5\<rparr>,
      \<lparr>tokenId = 7, logit = Finite 3\<rparr>]"
  by (simp add: getTopK_no_NaN test_logits_def indexed_def stable_sort_def slice0_def
      by_logit_desc_def upt_conv_Cons)

lemma mock_state_fields:
  "speculationDepth mock_state = 3" "isInitialized (parser mock_state)"
  "calls mock_state = []" "history mock_state = []"
  by (simp_all add: mock_state_def constructor_def history_def)

lemma test_fast_path:
  "process E (mock_parser (\<lambda>tok. True) []) [] test_logits mock_state =
     (Inr [NegInfinity, NegInfinity, NegInfinity, NegInfinity, NegInfinity, Finite 10,
           NegInfinity, NegInfinity],
      mock_state\<lparr>calls := [IsTokenAllowed 5]\<rparr>)"
  unfolding process_eq Let_def mock_state_fields test_logits_top3
  by (simp add: mock_state_fields mock_parser_def query_of_def maskAllExcept_def
      test_logits_def)

lemma test_third_candidate:
  "process E (mock_parser (\<lambda>tok. tok = 7) []) [] test_logits mock_state =
     (Inr [NegInfinity, NegInfinity, NegInfinity, NegInfinity, NegInfinity, NegInfinity,
           NegInfinity, Finite 3],
      mock_state\<lparr>calls := [IsTokenAllowed 5, IsTokenAllowed 3, IsTokenAllowed 7]\<rparr>)"
  unfolding process_eq Let_def mock_state_fields test_logits_top3
  by (simp add: mock_state_fields mock_parser_def query_of_def maskAllExcept_def
      test_logits_def)

lemma test_full_mask:
  "process E (mock_parser (\<lambda>tok. False) [0, 0, 0, 0, 1, 0, 0, 0]) [] test_logits mock_state =
     (Inr [NegInfinity, NegInfinity, NegInfinity, NegInfinity, Finite (-10), NegInfinity,
           NegInfinity, NegInfinity],
      mock_state\<lparr>calls := [IsTokenAllowed 5, IsTokenAllowed 3, IsTokenAllowed 7, GetTokenMask]\<rparr>)"
  unfolding process_eq Let_def mock_state_fields test_logits_top3
  by (simp add: mock_state_fields mock_parser_def query_of_def applyBitmask_def
      test_logits_def mask_is_zero_def upt_conv_Cons)

section \<open>The specified properties\<close>

text \<open>
  C1. Whatever the logits and the speculation depth \<open>k \<ge> 1\<close>: when the top-ranked token
  (highest logit, the smallest id among equals) is reported allowed by \<open>isTokenAllowed\<close>,
  \<open>process\<close> returns a vector of the same length that is negative infinity everywhere
  except at that token, where it holds the token's original logit; the only adapter call
  of that run is the one query, so \<open>getTokenMask\<close> is not invoked.
\<close>

theorem fast_path_top_token:
  assumes k: "1 \<le> speculationDepth st"
    and top: "top_ranked logits t"
    and allowed: "fst (isTokenAllowed W t st) = Inr True"
  shows "\<exists>r st'. process E W inputIds logits st = (Inr r, st')
           \<and> length r = length logits
           \<and> (\<forall>i<length logits. r ! i = (if i = t then logits ! t else NegInfinity))
           \<and> calls st' = calls st @ [IsTokenAllowed t]
           \<and> GetTokenMask \<notin> set (issued st st')"
proof -
  from getTopK_head [OF top k] obtain cs
    where topK: "getTopK E logits (speculationDepth st) = \<lparr>tokenId = t, logit = logits ! t\<rparr> # cs"
    by blast
  from allowed have ok: "isInitialized (parser st)"
      "wasm_is_token_allowed W (wasmParser (parser st)) t"
    by (auto simp: isTokenAllowed_eq split: if_splits)
  have "process E W inputIds logits st =
      (Inr (maskAllExcept logits t), st\<lparr>calls := calls st @ [IsTokenAllowed t]\<rparr>)"
    using ok by (simp add: process_def topK isTokenAllowed_eq invoke_as_update)
  then show ?thesis
    by (simp add: length_maskAllExcept nth_maskAllExcept issued_def)
qed

theorem fast_path_top_token_witness:
  "1 \<le> speculationDepth mock_state
   \<and> top_ranked sample_logits 1
   \<and> fst (isTokenAllowed (mock_parser (\<lambda>tok. True) []) 1 mock_state) = Inr True
   \<and> (\<exists>r st'. process idle_engine (mock_parser (\<lambda>tok. True) []) [] sample_logits mock_state = (Inr r, st')
         \<and> length r = length sample_logits
         \<and> (\<forall>i<length sample_logits.
               r ! i = (if i = 1 then sample_logits ! 1 else NegInfinity))
         \<and> calls st' = calls mock_state @ [IsTokenAllowed 1]
         \<and> GetTokenMask \<notin> set (issued mock_state st'))"
proof -
  have h1: "1 \<le> speculationDepth mock_state"
    by (simp add: mock_state_def constructor_def)
  have h2: "top_ranked sample_logits 1"
    by (simp add: top_ranked_def sample_logits_def f32_ge_def nth_Cons' less_Suc_eq
        numeral_eq_Suc)
  have h3: "fst (isTokenAllowed (mock_parser (\<lambda>tok. True) []) 1 mock_state) = Inr True"
    by (simp add: isTokenAllowed_eq mock_parser_def mock_state_def constructor_def)
  from fast_path_top_token [OF h1 h2 h3, where inputIds = "[]"] h1 h2 h3
  show ?thesis by blast
qed

text \<open>
  C2. Whatever the logits: when the adapter is initialised and every one of the top-k
  candidates is reported not allowed, \<open>process\<close> queries the candidates in order, calls
  \<open>getTokenMask\<close> once, and returns the input with negative infinity at every index whose
  mask entry is 0 and the original value at every other index (an entry 1 among them).
\<close>

theorem slow_path_full_mask:
  assumes init: "isInitialized (parser st)"
    and none: "\<forall>c\<in>set (getTopK E logits (speculationDepth st)).
                 fst (isTokenAllowed W (tokenId c) st) = Inr False"
  shows "\<exists>r st' bits. process E W inputIds logits st = (Inr r, st')
           \<and> fst (getTokenMask W st) = Inr bits
           \<and> length r = length logits
           \<and> (\<forall>i<length logits.
                 r ! i = (if i < length bits \<and> bits ! i = 0 then NegInfinity else logits ! i))
           \<and> issued st st' = map query_of (getTopK E logits (speculationDepth st)) @ [GetTokenMask]
           \<and> count_list (issued st st') GetTokenMask = 1"
proof -
  let ?cs = "getTopK E logits (speculationDepth st)"
  let ?bits = "wasm_get_token_mask W (wasmParser (parser st))"
  from none init have no: "\<forall>c\<in>set ?cs. \<not> wasm_is_token_allowed W (wasmParser (parser st)) (tokenId c)"
    by (auto simp: isTokenAllowed_eq)
  then have "dropWhile (\<lambda>c. \<not> wasm_is_token_allowed W (wasmParser (parser st)) (tokenId c)) ?cs = []"
    by simp
  with process_loop_init [OF init, of W logits ?cs]
  have loop: "process_loop W logits ?cs st = (Inr None, st\<lparr>calls := calls st @ map query_of ?cs\<rparr>)"
    by simp
  have proc: "process E W inputIds logits st =
      (Inr (applyBitmask logits ?bits),
       st\<lparr>calls := calls st @ map query_of ?cs @ [GetTokenMask]\<rparr>)"
    using init by (simp add: process_def loop getTokenMask_eq invoke_as_update Let_def)
  have cnt: "count_list (map query_of ?cs @ [GetTokenMask]) GetTokenMask = 1"
    by (simp add: count_queries)
  show ?thesis
    using init cnt
    by (simp add: proc getTokenMask_eq length_applyBitmask nth_applyBitmask issued_def
        mask_is_zero_def)
qed

theorem slow_path_full_mask_witness:
  "isInitialized (parser mock_state)
   \<and> map (\<lambda>c. fst (isTokenAllowed (mock_parser (\<lambda>tok. tok = 0) [1, 0, 0, 0, 0, 0])
                      (tokenId c) mock_state))
         (getTopK idle_engine sample_logits (speculationDepth mock_state))
       = [Inr False, Inr False, Inr False]
   \<and> (\<exists>r st' bits.
         process idle_engine (mock_parser (\<lambda>tok. tok = 0) [1, 0, 0, 0, 0, 0]) [] sample_logits mock_state
           = (Inr r, st')
         \<and> fst (getTokenMask (mock_parser (\<lambda>tok. tok = 0) [1, 0, 0, 0, 0, 0]) mock_state)
             = Inr bits
         \<and> length r = length sample_logits
         \<and> (\<forall>i<length sample_logits.
               r ! i = (if i < length bits \<and> bits ! i = 0 then NegInfinity
                        else sample_logits ! i))
         \<and> issued mock_state st'
             = map query_of (getTopK idle_engine sample_logits (speculationDepth mock_state))
               @ [GetTokenMask]
         \<and> count_list (issued mock_state st') GetTokenMask = 1)"
proof -
  have topK: "getTopK idle_engine sample_logits 3 =
      [\<lparr>tokenId = 1, logit = Finite 10\<rparr>, \<lparr>tokenId = 2, logit = Finite 5\<rparr>,
       \<lparr>tokenId = 4, logit = Finite 5\<rparr>]"
    by (simp add: getTopK_no_NaN sample_logits_def indexed_def stable_sort_def slice0_def
        by_logit_desc_def upt_conv_Cons)
  have depth: "speculationDepth mock_state = 3"
    by (simp add: mock_state_def constructor_def)
  have h1: "isInitialized (parser mock_state)"
    by (simp add: mock_state_def constructor_def)
  have h2: "\<forall>c\<in>set (getTopK idle_engine sample_logits (speculationDepth mock_state)).
      fst (isTokenAllowed (mock_parser (\<lambda>tok. tok = 0) [1, 0, 0, 0, 0, 0])
             (tokenId c) mock_state) = Inr False"
    by (simp add: depth topK isTokenAllowed_eq h1 mock_parser_def)
  have e: "map (\<lambda>c. fst (isTokenAllowed (mock_parser (\<lambda>tok. tok = 0) [1, 0, 0, 0, 0, 0])
                      (tokenId c) mock_state))
         (getTopK idle_engine sample_logits (speculationDepth mock_state))
       = [Inr False, Inr False, Inr False]"
    by (simp add: depth topK isTokenAllowed_eq h1 mock_parser_def)
  from slow_path_full_mask [OF h1 h2, where inputIds = "[]"] h1 e
  show ?thesis by blast
qed




text \<open>
  C4, as amended. The two producers of \<open>TokenizerData\<close> set \<open>model_type\<close> differently.
  \<open>extractTokenizerData\<close> gives \<open>bpe\<close> exactly when the tokenizer's model has merge rules
  and they are not empty, and \<open>unknown\<close> otherwise. \<open>parseTokenizerJson\<close> copies the
  \<^verbatim>\<open>type\<close> field of the document's model and gives \<open>unknown\<close> when the field is absent,
  whatever the merge rules are.
\<close>

theorem model_type_by_path:
  "(\<forall>td. extractTokenizerData tk = Inr td \<longrightarrow>
       model_type td =
         (if \<exists>ms. tokenizer_model_merges tk = Some ms \<and> ms \<noteq> [] then ''bpe'' else ''unknown''))
   \<and> (\<forall>td m. parseTokenizerJson doc = Inr td \<and> json_model doc = Some m \<longrightarrow>
       model_type td = (case json_type m of None \<Rightarrow> ''unknown'' | Some t \<Rightarrow> t))"
  by (auto simp: extractTokenizerData_def parseTokenizerJson_def detectModelType_def
      split: option.splits sum.splits)

theorem model_type_by_path_witness:
  "map_sum id model_type (extractTokenizerData
      \<lparr>tk_model = Some \<lparr>model_vocab = None, model_merges = Some [''h e'', ''l l'', ''o w'']\<rparr>,
       tk_vocab = None, tk_added_tokens = None,
       tk_getVocab = Some [''hello'' \<mapsto> 0, ''world'' \<mapsto> 1, ''!'' \<mapsto> 2]\<rparr>) = Inr ''bpe''
   \<and> map_sum id model_type (parseTokenizerJson
      \<lparr>json_model = Some \<lparr>json_vocab = Some [''hello'' \<mapsto> 0], json_merges = Some [''h e''],
         json_type = Some ''BPE''\<rparr>, json_added_tokens = None\<rparr>) = Inr ''BPE''"
  using model_type_by_path
    [of "\<lparr>tk_model = Some \<lparr>model_vocab = None, model_merges = Some [''h e'', ''l l'', ''o w'']\<rparr>,
       tk_vocab = None, tk_added_tokens = None,
       tk_getVocab = Some [''hello'' \<mapsto> 0, ''world'' \<mapsto> 1, ''!'' \<mapsto> 2]\<rparr>"
        "\<lparr>json_model = Some \<lparr>json_vocab = Some [''hello'' \<mapsto> 0], json_merges = Some [''h e''],
         json_type = Some ''BPE''\<rparr>, json_added_tokens = None\<rparr>"]
  by (simp add: extractTokenizerData_def parseTokenizerJson_def tokenizer_model_vocab_def
      tokenizer_model_merges_def)

text \<open>
  A descriptor document with three merge rules and no \<^verbatim>\<open>type\<close> field is parsed to the
  model type \<open>unknown\<close>, not \<open>bpe\<close>.
\<close>

theorem parsed_model_type_counterexample:
  "map_option json_merges (json_model untyped_bpe_descriptor)
     = Some (Some [''h e'', ''l l'', ''o w''])
   \<and> map_sum id model_type (parseTokenizerJson untyped_bpe_descriptor) = Inr ''unknown''"
  by (simp add: parseTokenizerJson_def untyped_bpe_descriptor_def)

text \<open>
  C5. \<open>extractTokenizerData\<close> takes the vocabulary from the \<open>getVocab\<close> accessor whenever
  the tokenizer has one; otherwise from the vocabulary of the nested model, when present;
  otherwise from the top-level vocabulary. It throws its vocabulary error exactly when
  none of the three is present.
\<close>

theorem vocabulary_resolution_order:
  "(case tk_getVocab tk of
      Some v \<Rightarrow> map_sum id vocab (extractTokenizerData tk) = Inr v
    | None \<Rightarrow>
       (case tokenizer_model_vocab tk of
          Some v \<Rightarrow> map_sum id vocab (extractTokenizerData tk) = Inr (mapToRecord v)
        | None \<Rightarrow>
           (case tk_vocab tk of
              Some v \<Rightarrow> map_sum id vocab (extractTokenizerData tk) = Inr (mapToRecord v)
            | None \<Rightarrow> extractTokenizerData tk = Inl vocabulary_error)))
   \<and> ((\<exists>e. extractTokenizerData tk = Inl e) \<longleftrightarrow>
        tk_getVocab tk = None \<and> tokenizer_model_vocab tk = None \<and> tk_vocab tk = None)"
  by (auto simp: extractTokenizerData_def split: option.splits)

theorem vocabulary_resolution_order_witness:
  "map_sum id (\<lambda>td. (vocab td ''a'', vocab td ''b'', vocab td ''c'')) (extractTokenizerData
      \<lparr>tk_model = Some \<lparr>model_vocab = Some (MapVocab [(''b'', 1)]), model_merges = None\<rparr>,
       tk_vocab = Some (RecordVocab [''c'' \<mapsto> 2]), tk_added_tokens = None,
       tk_getVocab = Some [''a'' \<mapsto> 0]\<rparr>) = Inr (Some 0, None, None)
   \<and> map_sum id (\<lambda>td. (vocab td ''a'', vocab td ''b'', vocab td ''c'')) (extractTokenizerData
      \<lparr>tk_model = Some \<lparr>model_vocab = Some (MapVocab [(''b'', 1)]), model_merges = None\<rparr>,
       tk_vocab = Some (RecordVocab [''c'' \<mapsto> 2]), tk_added_tokens = None,
       tk_getVocab = None\<rparr>) = Inr (None, Some 1, None)
   \<and> extractTokenizerData
      \<lparr>tk_model = None, tk_vocab = None, tk_added_tokens = None, tk_getVocab = None\<rparr>
     = Inl vocabulary_error"
  using vocabulary_resolution_order
    [of "\<lparr>tk_model = Some \<lparr>model_vocab = Some (MapVocab [(''b'', 1)]), model_merges = None\<rparr>,
       tk_vocab = Some (RecordVocab [''c'' \<mapsto> 2]), tk_added_tokens = None,
       tk_getVocab = Some [''a'' \<mapsto> 0]\<rparr>"]
    vocabulary_resolution_order
    [of "\<lparr>tk_model = Some \<lparr>model_vocab = Some (MapVocab [(''b'', 1)]), model_merges = None\<rparr>,
       tk_vocab = Some (RecordVocab [''c'' \<mapsto> 2]), tk_added_tokens = None,
       tk_getVocab = None\<rparr>"]
    vocabulary_resolution_order
    [of "\<lparr>tk_model = None, tk_vocab = None, tk_added_tokens = None, tk_getVocab = None\<rparr>"]
  by (simp add: tokenizer_model_vocab_def map_sum_def split: sum.splits)

text \<open>
  C6, as amended. \<open>convertGrammar\<close> is defined on each of the three kinds of grammar and
  always gives an object whose only field, \<open>grammars\<close>, is a list of one element. For a
  JSON schema the element carries the schema under the key \<open>json_schema\<close>; for a regular
  expression it carries the pattern under the key \<open>rx\<close>; for a Lark grammar it carries
  the grammar text under \<open>lark\<close> and the start symbol under \<open>start\<close>, which is
  \<open>start\<close> when the grammar names none.
\<close>

theorem convertGrammar_cases:
  "convertGrammar (JsonSchemaGrammar schema) =
     JObject [(''grammars'', JArray [JObject [(''json_schema'', schema)]])]
   \<and> convertGrammar (RegexGrammar pattern) =
     JObject [(''grammars'', JArray [JObject [(''rx'', JString pattern)]])]
   \<and> convertGrammar (LarkGrammar text (Some s)) =
     JObject [(''grammars'', JArray [JObject [(''lark'', JString text), (''start'', JString s)]])]
   \<and> convertGrammar (LarkGrammar text None) =
     JObject [(''grammars'', JArray [JObject [(''lark'', JString text), (''start'', JString ''start'')]])]
   \<and> (\<forall>g. \<exists>element. convertGrammar g = JObject [(''grammars'', JArray [element])])"
proof -
  have "\<exists>element. convertGrammar g = JObject [(''grammars'', JArray [element])]" for g
    by (cases g) auto
  then show ?thesis by simp
qed

theorem convertGrammar_cases_witness:
  "convertGrammar (JsonSchemaGrammar (JObject [(''type'', JString ''object'')])) =
     JObject [(''grammars'', JArray [JObject
       [(''json_schema'', JObject [(''type'', JString ''object'')])]])]
   \<and> convertGrammar (RegexGrammar ''[0-9]+'') =
     JObject [(''grammars'', JArray [JObject [(''rx'', JString ''[0-9]+'')]])]
   \<and> convertGrammar (LarkGrammar ''start: /a+/'' None) =
     JObject [(''grammars'', JArray [JObject
       [(''lark'', JString ''start: /a+/''), (''start'', JString ''start'')]])]"
  using convertGrammar_cases
    [of "JObject [(''type'', JString ''object'')]" "''[0-9]+''" "''start: /a+/''"]
  by simp

text \<open>
  The translation of a regular-expression grammar has no field named \<open>regex\<close>: the
  pattern is not carried under that key.
\<close>

theorem regex_key_counterexample:
  "convertGrammar (RegexGrammar ''[0-9]+'')
     \<noteq> JObject [(''grammars'', JArray [JObject [(''regex'', JString ''[0-9]+'')]])]"
  by simp

text \<open>
  C7. Whether a producer fails depends on the vocabulary alone: \<open>extractTokenizerData\<close>
  fails exactly when the tokenizer has no vocabulary source and \<open>parseTokenizerJson\<close>
  exactly when the document has no \<^verbatim>\<open>model.vocab\<close>, whatever the added tokens are. In
  every other case the added tokens of the result are the entries given, each with the
  defaults of the data model: an absent flag becomes \<open>False\<close>, except \<open>normalized\<close>, which
  becomes \<open>True\<close>, and a flag that is supplied is kept. \<open>extractTokenizerData\<close> takes an
  absent list for the empty list; \<open>parseTokenizerJson\<close> leaves the field undefined when
  the document has no list. An entry with only an id and a content gets the five default
  flags.
\<close>

theorem added_token_defaults:
  "map_sum id added_tokens (extractTokenizerData tk) =
     (if tk_getVocab tk = None \<and> tokenizer_model_vocab tk = None \<and> tk_vocab tk = None
      then Inl vocabulary_error
      else Inr (Some (map with_default_flags
                  (case tk_added_tokens tk of None \<Rightarrow> [] | Some ts \<Rightarrow> ts))))
   \<and> map_sum id added_tokens (parseTokenizerJson doc) =
     (if (case json_model doc of None \<Rightarrow> None | Some m \<Rightarrow> json_vocab m) = None
      then Inl descriptor_error
      else Inr (map_option (map with_default_flags) (json_added_tokens doc)))
   \<and> with_default_flags t =
       \<lparr>token_id = in_id t, content = in_content t,
        single_word = (case in_single_word t of None \<Rightarrow> False | Some b \<Rightarrow> b),
        lstrip = (case in_lstrip t of None \<Rightarrow> False | Some b \<Rightarrow> b),
        rstrip = (case in_rstrip t of None \<Rightarrow> False | Some b \<Rightarrow> b),
        normalized = (case in_normalized t of None \<Rightarrow> True | Some b \<Rightarrow> b),
        special = (case in_special t of None \<Rightarrow> False | Some b \<Rightarrow> b)\<rparr>
   \<and> with_default_flags
        \<lparr>in_id = i, in_content = c, in_single_word = None, in_lstrip = None, in_rstrip = None,
         in_normalized = None, in_special = None\<rparr>
      = \<lparr>token_id = i, content = c, single_word = False, lstrip = False, rstrip = False,
         normalized = True, special = False\<rparr>
   \<and> with_default_flags
        \<lparr>in_id = i, in_content = c, in_single_word = Some b1, in_lstrip = Some b2,
         in_rstrip = Some b3, in_normalized = Some b4, in_special = Some b5\<rparr>
      = \<lparr>token_id = i, content = c, single_word = b1, lstrip = b2, rstrip = b3,
         normalized = b4, special = b5\<rparr>"
proof -
  have ex: "map_sum id added_tokens (extractTokenizerData tk) =
     (if tk_getVocab tk = None \<and> tokenizer_model_vocab tk = None \<and> tk_vocab tk = None
      then Inl vocabulary_error
      else Inr (Some (map with_default_flags
                  (case tk_added_tokens tk of None \<Rightarrow> [] | Some ts \<Rightarrow> ts))))"
    by (auto simp: extractTokenizerData_def with_default_flags_def flag_or_case
        split: option.splits)
  have pa: "map_sum id added_tokens (parseTokenizerJson doc) =
     (if (case json_model doc of None \<Rightarrow> None | Some m \<Rightarrow> json_vocab m) = None
      then Inl descriptor_error
      else Inr (map_option (map with_default_flags) (json_added_tokens doc)))"
    by (auto simp: parseTokenizerJson_def with_default_flags_def flag_or_case
        split: option.splits)
  show ?thesis
    unfolding ex pa by (simp add: with_default_flags_def flag_or_case)
qed

theorem added_token_defaults_witness:
  "map_sum id added_tokens (extractTokenizerData
      \<lparr>tk_model = None, tk_vocab = Some (RecordVocab [''a'' \<mapsto> 0]),
       tk_added_tokens = Some
         [\<lparr>in_id = 50, in_content = ''<pad>'', in_single_word = None, in_lstrip = None,
           in_rstrip = None, in_normalized = None, in_special = None\<rparr>],
       tk_getVocab = None\<rparr>)
    = Inr (Some [\<lparr>token_id = 50, content = ''<pad>'', single_word = False, lstrip = False,
                  rstrip = False, normalized = True, special = False\<rparr>])
   \<and> map_sum id added_tokens (parseTokenizerJson
      \<lparr>json_model = Some \<lparr>json_vocab = Some [''a'' \<mapsto> 0], json_merges = None,
         json_type = None\<rparr>,
       json_added_tokens = Some
         [\<lparr>in_id = 100, in_content = ''<|endoftext|>'', in_single_word = None,
           in_lstrip = None, in_rstrip = None, in_normalized = None,
           in_special = Some True\<rparr>,
          \<lparr>in_id = 50, in_content = ''<pad>'', in_single_word = None, in_lstrip = None,
           in_rstrip = None, in_normalized = None, in_special = None\<rparr>]\<rparr>)
    = Inr (Some [\<lparr>token_id = 100, content = ''<|endoftext|>'', single_word = False,
                  lstrip = False, rstrip = False, normalized = True, special = True\<rparr>,
                 \<lparr>token_id = 50, content = ''<pad>'', single_word = False, lstrip = False,
                  rstrip = False, normalized = True, special = False\<rparr>])"
  using added_token_defaults
    [of "\<lparr>tk_model = None, tk_vocab = Some (RecordVocab [''a'' \<mapsto> 0]),
       tk_added_tokens = Some
         [\<lparr>in_id = 50, in_content = ''<pad>'', in_single_word = None, in_lstrip = None,
           in_rstrip = None, in_normalized = None, in_special = None\<rparr>],
       tk_getVocab = None\<rparr>"
      "\<lparr>json_model = Some \<lparr>json_vocab = Some [''a'' \<mapsto> 0], json_merges = None,
         json_type = None\<rparr>,
       json_added_tokens = Some
         [\<lparr>in_id = 100, in_content = ''<|endoftext|>'', in_single_word = None,
           in_lstrip = None, in_rstrip = None, in_normalized = None,
           in_special = Some True\<rparr>,
          \<lparr>in_id = 50, in_content = ''<pad>'', in_single_word = None, in_lstrip = None,
           in_rstrip = None, in_normalized = None, in_special = None\<rparr>]\<rparr>"]
  by (simp add: with_default_flags_def)

text \<open>
  C8. After any sequence of operations on a new processor, \<open>getGeneratedTokens\<close> returns
  an array holding the ids passed to \<open>onToken\<close> since the construction or the last
  \<open>reset\<close>, in call order (calls of \<open>process\<close>, \<open>canStop\<close> and \<open>getGeneratedTokens\<close> in
  between change nothing, and an \<open>onToken\<close> whose \<open>advance\<close> throws has still recorded its
  id). In particular a run of \<open>onToken\<close> calls after the construction or after a reset
  gives back exactly the ids passed, and right after a reset the array is empty.
\<close>

theorem generated_tokens_in_call_order:
  "(let st1 = run E W ops (constructor p options h n cs);
        (a, st2) = getGeneratedTokens st1
    in heap st2 a = foldl emitted [] ops)
   \<and> (let st1 = run E W (map OnToken toks) (constructor p options h n cs);
        (a, st2) = getGeneratedTokens st1
    in heap st2 a = toks)
   \<and> (let st1 = run E W (map OnToken toks) (snd (reset W st));
        (a, st2) = getGeneratedTokens st1
    in heap st2 a = toks)
   \<and> (let (a, st2) = getGeneratedTokens (snd (reset W st)) in heap st2 a = [])"
proof -
  have copy: "(case getGeneratedTokens s of (a, st2) \<Rightarrow> heap st2 a = xs) = (history s = xs)"
    for s :: "'a state" and xs
    using getGeneratedTokens_copy [of s] by (simp add: case_prod_unfold)
  show ?thesis
    by (simp add: Let_def copy history_run history_constructor history_reset emitted_tokens)
qed

theorem generated_tokens_in_call_order_witness:
  "(let st1 = run idle_engine (mock_parser (\<lambda>tok. True) [])
                [OnToken 9, ResetProcessor, OnToken 1, Process [] sample_logits, OnToken 2,
                 GetGeneratedTokens, OnToken 3]
                (constructor \<lparr>wasmParser = (), isInitialized = True\<rparr>
                   \<lparr>opt_speculationDepth = None, opt_debug = None\<rparr> (\<lambda>a. []) 0 []);
        (a, st2) = getGeneratedTokens st1
    in heap st2 a = [1, 2, 3])
   \<and> (let st1 = run idle_engine (mock_parser (\<lambda>tok. True) []) (map OnToken [1, 2, 3])
                (constructor \<lparr>wasmParser = (), isInitialized = True\<rparr>
                   \<lparr>opt_speculationDepth = None, opt_debug = None\<rparr> (\<lambda>a. []) 0 []);
        (a, st2) = getGeneratedTokens st1
    in heap st2 a = [1, 2, 3])
   \<and> (let st1 = run idle_engine (mock_parser (\<lambda>tok. True) []) (map OnToken [42])
                (snd (reset (mock_parser (\<lambda>tok. True) []) mock_state));
        (a, st2) = getGeneratedTokens st1
    in heap st2 a = [42])
   \<and> (let (a, st2) =
          getGeneratedTokens (snd (reset (mock_parser (\<lambda>tok. True) []) mock_state))
       in heap st2 a = [])"
  using generated_tokens_in_call_order
    [of idle_engine "mock_parser (\<lambda>tok. True) []"
        "[OnToken 9, ResetProcessor, OnToken 1, Process [] sample_logits, OnToken 2,
          GetGeneratedTokens, OnToken 3]"
        "\<lparr>wasmParser = (), isInitialized = True\<rparr>"
        "\<lparr>opt_speculationDepth = None, opt_debug = None\<rparr>" "\<lambda>a. []" 0 "[]"
        "[1, 2, 3]" mock_state]
    generated_tokens_in_call_order
    [of idle_engine "mock_parser (\<lambda>tok. True) []" "[]"
        "\<lparr>wasmParser = (), isInitialized = True\<rparr>"
        "\<lparr>opt_speculationDepth = None, opt_debug = None\<rparr>" "\<lambda>a. []" 0 "[]"
        "[42]" mock_state]
  by simp



text \<open>
  C10. Every call of \<open>process\<close>, also one that throws, leaves the history, the store and
  the adapter with its session as they were: the state after the call is the state before
  it with some calls added to the log, and each of them is an \<open>isTokenAllowed\<close> or a
  \<open>getTokenMask\<close>, never an \<open>advance\<close> or a \<open>reset\<close>.
\<close>

theorem process_only_reads:
  "let st' = snd (process E W inputIds logits st) in
     history st' = history st
     \<and> generatedTokens st' = generatedTokens st
     \<and> heap st' = heap st
     \<and> parser st' = parser st
     \<and> (\<exists>tr. st' = st\<lparr>calls := calls st @ tr\<rparr> \<and> list_all is_query tr)"
proof -
  from process_frame_aux [of E W inputIds logits st] obtain tr
    where tr: "snd (process E W inputIds logits st) = st\<lparr>calls := calls st @ tr\<rparr>"
      "list_all is_query tr" by blast
  then show ?thesis by (auto simp: Let_def history_def)
qed

theorem process_only_reads_witness:
  "issued mock_state
     (snd (process idle_engine (mock_parser (\<lambda>tok. tok = 4) []) [] sample_logits mock_state))
     = [IsTokenAllowed 1, IsTokenAllowed 2, IsTokenAllowed 4]
   \<and> (let st' = snd (process idle_engine (mock_parser (\<lambda>tok. tok = 4) []) [] sample_logits mock_state) in
     history st' = history mock_state
     \<and> generatedTokens st' = generatedTokens mock_state
     \<and> heap st' = heap mock_state
     \<and> parser st' = parser mock_state
     \<and> (\<exists>tr. st' = mock_state\<lparr>calls := calls mock_state @ tr\<rparr> \<and> list_all is_query tr))"
proof -
  have topK: "getTopK idle_engine sample_logits 3 =
      [\<lparr>tokenId = 1, logit = Finite 10\<rparr>, \<lparr>tokenId = 2, logit = Finite 5\<rparr>,
       \<lparr>tokenId = 4, logit = Finite 5\<rparr>]"
    by (simp add: getTopK_no_NaN sample_logits_def indexed_def stable_sort_def slice0_def
        by_logit_desc_def upt_conv_Cons)
  have depth: "speculationDepth mock_state = 3"
    by (simp add: mock_state_def constructor_def)
  have init: "isInitialized (parser mock_state)"
    by (simp add: mock_state_def constructor_def)
  have e: "issued mock_state
     (snd (process idle_engine (mock_parser (\<lambda>tok. tok = 4) []) [] sample_logits mock_state))
     = [IsTokenAllowed 1, IsTokenAllowed 2, IsTokenAllowed 4]"
    using init by (simp add: process_eq depth topK Let_def mock_parser_def query_of_def)
  from process_only_reads [of idle_engine "mock_parser (\<lambda>tok. tok = 4) []" "[]" sample_logits mock_state] e
  show ?thesis by blast
qed

end
